theory Spec2Isabelle
  imports Complex_Main "HOL-Library.Word"
begin

unbundle bit_operations_syntax

section \<open>Bytes, buffers and errors\<close>

text \<open>
  A Go \<^verbatim>\<open>string\<close> and a Go \<^verbatim>\<open>[]byte\<close> are both sequences of arbitrary bytes.
  The append functions of \<^verbatim>\<open>jsonappender.go\<close> take the destination buffer and return
  the extended one, so a buffer is modelled as a list of bytes and \<^verbatim>\<open>append(buf, x...)\<close>
  as \<open>buf @ x\<close>.
\<close>

type_synonym byte = "8 word"
type_synonym bytes = "byte list"
type_synonym rune = "32 word"

text \<open>ASCII literals of the source, written as HOL strings.\<close>

definition lit :: "string \<Rightarrow> bytes" where
  "lit cs = map of_char cs"

text \<open>
  Error values. \<open>Errorf\<close> is an error made by \<^verbatim>\<open>fmt.Errorf\<close> with the given message;
  \<open>External\<close> is an opaque error handed over by a collaborator (a sink, a user-supplied
  \<^verbatim>\<open>AppendJSON\<close> or \<^verbatim>\<open>MarshalJSON\<close>, \<^verbatim>\<open>json.Marshal\<close>).
\<close>

datatype error = Errorf bytes | External nat

text \<open>A Go result pair \<^verbatim>\<open>([]byte, error)\<close>; \<open>None\<close> is the nil error.\<close>

type_synonym result = "bytes \<times> error option"

section \<open>The string encoder\<close>

text \<open>
  \<^verbatim>\<open>htmlSafeSet\<close>: an array of \<^verbatim>\<open>utf8.RuneSelf\<close> = 128 booleans. The source lists every
  index from \<^verbatim>\<open>' '\<close> (0x20) to \<^verbatim>\<open>'\u007f'\<close>, all \<^verbatim>\<open>true\<close> except \<^verbatim>\<open>'"'\<close> (0x22),
  \<^verbatim>\<open>'&'\<close> (0x26), \<^verbatim>\<open>'<'\<close> (0x3c), \<^verbatim>\<open>'>'\<close> (0x3e) and the backslash (0x5c); the indices
  0x00 to 0x1f are not listed and hold the zero value \<^verbatim>\<open>false\<close>.
\<close>

definition htmlSafeSet :: "byte \<Rightarrow> bool" where
  "htmlSafeSet b \<longleftrightarrow>
     0x20 \<le> b \<and> b \<le> 0x7f \<and> b \<noteq> 0x22 \<and> b \<noteq> 0x26 \<and> b \<noteq> 0x3c \<and> b \<noteq> 0x3e \<and> b \<noteq> 0x5c"

text \<open>\<^verbatim>\<open>const hex = "0123456789abcdef"\<close>\<close>

definition hex :: bytes where
  "hex = lit ''0123456789abcdef''"

subsection \<open>The Go library function \<^verbatim>\<open>utf8.DecodeRuneInString\<close>\<close>

text \<open>
  \<^verbatim>\<open>String\<close> calls \<^verbatim>\<open>utf8.DecodeRuneInString\<close> of the Go standard library
  (package \<^verbatim>\<open>unicode/utf8\<close>). It is transcribed here from that package: the table
  \<^verbatim>\<open>first\<close> classifies the leading byte (\<^verbatim>\<open>as\<close> = 0xF0 for ASCII, \<^verbatim>\<open>xx\<close> = 0xF1 for an
  invalid leading byte, otherwise the size in the low three bits and the index of the
  accepted range of the second byte in the high four), \<^verbatim>\<open>acceptRanges\<close> bounds the
  second byte, and every further byte must be a continuation byte 0x80..0xBF. An
  encoding that is invalid or cut short yields \<^verbatim>\<open>(RuneError, 1)\<close>, the empty string
  \<^verbatim>\<open>(RuneError, 0)\<close>.
\<close>

definition RuneError :: rune where
  "RuneError = 0xFFFD"

definition RuneSelf :: byte where
  "RuneSelf = 0x80"

definition first :: "byte \<Rightarrow> byte" where
  "first b =
     (if b < 0x80 then 0xF0
      else if b < 0xC2 then 0xF1
      else if b < 0xE0 then 0x02
      else if b = 0xE0 then 0x13
      else if b < 0xED then 0x03
      else if b = 0xED then 0x23
      else if b < 0xF0 then 0x03
      else if b = 0xF0 then 0x34
      else if b < 0xF4 then 0x04
      else if b = 0xF4 then 0x44
      else 0xF1)"

definition acceptRanges :: "byte \<Rightarrow> byte \<times> byte" where
  "acceptRanges k =
     (if k = 1 then (0xA0, 0xBF)
      else if k = 2 then (0x80, 0x9F)
      else if k = 3 then (0x90, 0xBF)
      else if k = 4 then (0x80, 0x8F)
      else (0x80, 0xBF))"

definition DecodeRuneInString :: "bytes \<Rightarrow> rune \<times> nat" where
  "DecodeRuneInString s =
     (if length s < 1 then (RuneError, 0)
      else
        let s0 = s ! 0; x = first s0 in
        if x \<ge> 0xF0 then ((if x = 0xF1 then RuneError else ucast s0), 1)
        else
          let sz = unat (x AND 7); (lo, hi) = acceptRanges (drop_bit 4 x) in
          if length s < sz then (RuneError, 1)
          else
            let s1 = s ! 1 in
            if s1 < lo \<or> hi < s1 then (RuneError, 1)
            else if sz \<le> 2 then
              (push_bit 6 (ucast (s0 AND 0x1F)) OR ucast (s1 AND 0x3F), 2)
            else
              let s2 = s ! 2 in
              if s2 < 0x80 \<or> 0xBF < s2 then (RuneError, 1)
              else if sz \<le> 3 then
                (push_bit 12 (ucast (s0 AND 0x0F)) OR push_bit 6 (ucast (s1 AND 0x3F))
                   OR ucast (s2 AND 0x3F), 3)
              else
                let s3 = s ! 3 in
                if s3 < 0x80 \<or> 0xBF < s3 then (RuneError, 1)
                else
                  (push_bit 18 (ucast (s0 AND 0x07)) OR push_bit 12 (ucast (s1 AND 0x3F))
                     OR push_bit 6 (ucast (s2 AND 0x3F)) OR ucast (s3 AND 0x3F), 4))"

subsection \<open>\<^verbatim>\<open>String\<close>\<close>

text \<open>\<^verbatim>\<open>s[start:i]\<close>\<close>

definition slice :: "bytes \<Rightarrow> nat \<Rightarrow> nat \<Rightarrow> bytes" where
  "slice s lo hi = take (hi - lo) (drop lo s)"

text \<open>\<^verbatim>\<open>if start < i { buf = append(buf, s[start:i]...) }\<close>\<close>

definition copy_run :: "bytes \<Rightarrow> nat \<Rightarrow> nat \<Rightarrow> bytes \<Rightarrow> bytes" where
  "copy_run s start i buf = (if start < i then buf @ slice s start i else buf)"

text \<open>
  The escape written for an ASCII byte outside \<open>htmlSafeSet\<close>: the backslash, then the
  \<^verbatim>\<open>switch b\<close> of the source.
\<close>

definition escape_ascii :: "byte \<Rightarrow> bytes" where
  "escape_ascii b =
     [0x5C] @
     (if b = 0x5C \<or> b = 0x22 then [b]
      else if b = 0x0A then lit ''n''
      else if b = 0x0D then lit ''r''
      else if b = 0x09 then lit ''t''
      else lit ''u00'' @ [hex ! unat (drop_bit 4 b), hex ! unat (b AND 0xF)])"

text \<open>
  The scan loop \<^verbatim>\<open>for i := 0; i < len(s); { ... }\<close> with its variables \<open>i\<close>, \<open>start\<close> and
  \<open>buf\<close>, and the code after the loop. The loop has no increment clause: each branch
  moves \<open>i\<close> itself, so the loop is a partial function and \<open>None\<close> stands for a run that
  never leaves the loop.
\<close>

partial_function (option) String_loop :: "bytes \<Rightarrow> nat \<Rightarrow> nat \<Rightarrow> bytes \<Rightarrow> bytes option" where
  "String_loop s i start buf =
     (if i < length s then
        (if s ! i < RuneSelf then
           (if htmlSafeSet (s ! i) then String_loop s (i + 1) start buf
            else String_loop s (i + 1) (i + 1) (copy_run s start i buf @ escape_ascii (s ! i)))
         else
           (case DecodeRuneInString (drop i s) of (c, n) \<Rightarrow>
              if c = RuneError \<and> n = 1 then
                String_loop s (i + n) (i + n)
                  (copy_run s start i buf @ [0x5C] @ lit ''uffd'')
              else if c = 0x2028 \<or> c = 0x2029 then
                String_loop s i i
                  (copy_run s start i buf @ [0x5C] @ lit ''u202'' @ [hex ! unat (c AND 0xF)])
              else String_loop s (i + n) start buf))
      else
        Some ((if start < length s then buf @ drop start s else buf) @ [0x22]))"

declare String_loop.simps [code]

text \<open>\<^verbatim>\<open>func String(s string, buf []byte) []byte\<close>\<close>

definition String :: "bytes \<Rightarrow> bytes \<Rightarrow> bytes option" where
  "String s buf = String_loop s 0 0 (buf @ [0x22])"

text \<open>
  The position \<open>i\<close> of \<open>s\<close> holds a byte that is not ASCII, and the rune decoded there
  is U+2028 or U+2029 (and not the error rune of size 1): the condition of the third
  branch of the loop.
\<close>

definition separator_at :: "bytes \<Rightarrow> nat \<Rightarrow> bool" where
  "separator_at s i \<longleftrightarrow>
     i < length s \<and> \<not> s ! i < RuneSelf \<and>
     (case DecodeRuneInString (drop i s) of
        (c, n) \<Rightarrow> \<not> (c = RuneError \<and> n = 1) \<and> (c = 0x2028 \<or> c = 0x2029))"

section \<open>Integers, booleans and field names\<close>

text \<open>
  \<^verbatim>\<open>strconv.FormatUint(val, 10)\<close> and \<^verbatim>\<open>strconv.FormatInt(val, 10)\<close> of the Go standard
  library: the decimal digits of the value without leading zeros; \<^verbatim>\<open>FormatInt\<close> formats
  the magnitude \<^verbatim>\<open>-uint64(val)\<close> of a negative value after a minus sign. An \<^verbatim>\<open>int64\<close> and
  a \<^verbatim>\<open>uint64\<close> are 64-bit words, read by \<open>sint\<close> and \<open>unat\<close>; the conversion
  \<^verbatim>\<open>uint64(v)\<close> of an \<^verbatim>\<open>int64\<close> keeps the bits.
\<close>

type_synonym int64 = "64 word"
type_synonym uint64 = "64 word"

definition digit :: "nat \<Rightarrow> byte" where
  "digit d = of_nat (48 + d)"

fun digits10 :: "nat \<Rightarrow> bytes" where
  "digits10 n = (if n < 10 then [digit n] else digits10 (n div 10) @ [digit (n mod 10)])"

declare digits10.simps [simp del]

definition FormatUint :: "uint64 \<Rightarrow> bytes" where
  "FormatUint u = digits10 (unat u)"

definition FormatInt :: "int64 \<Rightarrow> bytes" where
  "FormatInt i = (if i <s 0 then lit ''-'' @ digits10 (unat (- i)) else digits10 (unat i))"

definition uint64_of_int64 :: "int64 \<Rightarrow> uint64" where
  "uint64_of_int64 v = ucast v"

definition Int64 :: "int64 \<Rightarrow> bytes \<Rightarrow> bytes" where
  "Int64 val buf = buf @ FormatInt val"

definition Uint64 :: "uint64 \<Rightarrow> bytes \<Rightarrow> bytes" where
  "Uint64 val buf = buf @ FormatUint val"

definition Bool :: "bool \<Rightarrow> bytes \<Rightarrow> bytes" where
  "Bool val buf = (if val then buf @ lit ''true'' else buf @ lit ''false'')"

text \<open>
  \<^verbatim>\<open>FieldName\<close> runs \<^verbatim>\<open>String\<close> first, so it returns only if \<^verbatim>\<open>String\<close> does.
\<close>

definition FieldName :: "bytes \<Rightarrow> bytes \<Rightarrow> bytes option" where
  "FieldName name buf =
     (case String name buf of None \<Rightarrow> None | Some buf1 \<Rightarrow> Some (buf1 @ lit '':''))"

section \<open>Timestamps\<close>

text \<open>
  A \<^verbatim>\<open>time.Time\<close> of the Go standard library, as the calendar fields its accessors
  \<^verbatim>\<open>Year\<close>, \<^verbatim>\<open>Month\<close>, \<^verbatim>\<open>Day\<close>, \<^verbatim>\<open>Hour\<close>, \<^verbatim>\<open>Minute\<close>, \<^verbatim>\<open>Second\<close>, \<^verbatim>\<open>Nanosecond\<close> return
  in the value's own zone, and the zone's offset in seconds east of UTC.
\<close>

record time_Time =
  Year :: int
  Month :: nat
  Day :: nat
  Hour :: nat
  Minute :: nat
  Second :: nat
  Nanosecond :: nat
  Offset :: int

text \<open>
  \<^verbatim>\<open>t.AppendFormat(buf, time.RFC3339Nano)\<close>, the layout
  \<^verbatim>\<open>"2006-01-02T15:04:05.999999999Z07:00"\<close>, transcribed from package \<^verbatim>\<open>time\<close>:
  \<^verbatim>\<open>appendInt\<close> writes a number padded with zeros to a width; the fraction is left out
  when it is zero and loses its trailing zeros otherwise; the zone is \<^verbatim>\<open>Z\<close> for the
  offset 0 and \<^verbatim>\<open>+hh:mm\<close> or \<^verbatim>\<open>-hh:mm\<close> otherwise. Go's integer division truncates
  towards zero.
\<close>

definition quot :: "int \<Rightarrow> int \<Rightarrow> int" where
  "quot a b = sgn a * sgn b * (\<bar>a\<bar> div \<bar>b\<bar>)"

definition appendInt :: "bytes \<Rightarrow> int \<Rightarrow> nat \<Rightarrow> bytes" where
  "appendInt b x width =
     (let ds = digits10 (nat \<bar>x\<bar>)
      in (if x < 0 then b @ lit ''-'' else b) @ replicate (width - length ds) 0x30 @ ds)"

definition appendNano :: "bytes \<Rightarrow> nat \<Rightarrow> bytes" where
  "appendNano b nanosec =
     (if nanosec = 0 then b
      else
        let b1 = appendInt (b @ lit ''.'') (int nanosec) 9;
            b2 = rev (dropWhile (\<lambda>c. c = 0x30) (rev b1))
        in if b2 \<noteq> [] \<and> (last b2 = 0x2E \<or> last b2 = 0x2C) then butlast b2 else b2)"

definition AppendFormat_RFC3339Nano :: "time_Time \<Rightarrow> bytes \<Rightarrow> bytes" where
  "AppendFormat_RFC3339Nano t b =
     (let b1 = appendInt b (Year t) 4 @ lit ''-'';
          b2 = appendInt b1 (int (Month t)) 2 @ lit ''-'';
          b3 = appendInt b2 (int (Day t)) 2 @ lit ''T'';
          b4 = appendInt b3 (int (Hour t)) 2 @ lit '':'';
          b5 = appendInt b4 (int (Minute t)) 2 @ lit '':'';
          b6 = appendInt b5 (int (Second t)) 2;
          b7 = appendNano b6 (Nanosecond t)
      in if Offset t = 0 then b7 @ lit ''Z''
         else
           let zone = quot (Offset t) 60;
               b8 = (if zone < 0 then b7 @ lit ''-'' else b7 @ lit ''+'');
               z = \<bar>zone\<bar>
           in appendInt (appendInt b8 (z div 60) 2 @ lit '':'') (z mod 60) 2)"

text \<open>
  \<^verbatim>\<open>func Time(t time.Time, buf []byte) ([]byte, error)\<close>. The failure branch is
  \<^verbatim>\<open>return nil, fmt.Errorf(...)\<close>: the buffer it returns is \<^verbatim>\<open>nil\<close>, the empty slice.
\<close>

definition Time :: "time_Time \<Rightarrow> bytes \<Rightarrow> result" where
  "Time t buf =
     (if Year t < 0 \<or> Year t \<ge> 10000 then
        ([], Some (Errorf (lit ''Time.MarshalJSON: year outside of range [0,9999]'')))
      else
        (AppendFormat_RFC3339Nano t (buf @ [0x22]) @ [0x22], None))"

section \<open>Floats\<close>

text \<open>
  A \<^verbatim>\<open>float64\<close> is NaN, an infinity with its sign, or a finite value. A finite value is
  modelled by what \<^verbatim>\<open>strconv\<close> computes from it when asked for the shortest
  representation (precision \<^verbatim>\<open>-1\<close>), its \<^verbatim>\<open>decimalSlice\<close>: the sign, the decimal digits
  \<open>d\<^sub>1 \<dots> d\<^sub>n\<close> and the position \<open>dp\<close> of the decimal point, standing for
  \<open>\<plusminus> 0.d\<^sub>1\<dots>d\<^sub>n \<times> 10\<^bsup>dp\<^esup>\<close>. It is the shortest decimal that reads back as the same
  \<^verbatim>\<open>float64\<close>; zero has no digits and \<open>dp = 0\<close>. Distinct finite values have distinct
  shortest decimals, in the same order, and the constants \<^verbatim>\<open>1e-6\<close> and \<^verbatim>\<open>1e21\<close> of the
  source are the \<^verbatim>\<open>float64\<close> values whose shortest decimals are \<open>10\<^bsup>-6\<^esup>\<close> and \<open>10\<^bsup>21\<^esup>\<close>,
  so a comparison of a finite value with them is the comparison of the decimals.
\<close>

datatype float64 = NaN | Inf bool | Finite bool "nat list" int

text \<open>
  The finite values that occur: digits below ten, no leading and no trailing zero digit,
  at most 17 digits, and a decimal exponent between that of the smallest subnormal
  (\<open>5 \<times> 10\<^bsup>-324\<^esup>\<close>) and that of the largest finite value (about \<open>1.8 \<times> 10\<^bsup>308\<^esup>\<close>).
\<close>

fun wf_float64 :: "float64 \<Rightarrow> bool" where
  "wf_float64 (Finite neg ds dp) =
     (if ds = [] then dp = 0
      else list_all (\<lambda>d. d < 10) ds \<and> hd ds \<noteq> 0 \<and> last ds \<noteq> 0 \<and> length ds \<le> 17
           \<and> - 323 \<le> dp \<and> dp \<le> 309)"
| "wf_float64 _ = True"

fun digits_val :: "nat list \<Rightarrow> nat" where
  "digits_val [] = 0"
| "digits_val (d # ds) = d * 10 ^ length ds + digits_val ds"

text \<open>The magnitude \<open>0.d\<^sub>1\<dots>d\<^sub>n \<times> 10\<^bsup>dp\<^esup>\<close> of a finite value.\<close>

definition magnitude :: "nat list \<Rightarrow> int \<Rightarrow> rat" where
  "magnitude ds dp = of_nat (digits_val ds) * 10 powi (dp - int (length ds))"

fun IsNaN :: "float64 \<Rightarrow> bool" where
  "IsNaN NaN = True"
| "IsNaN _ = False"

text \<open>\<^verbatim>\<open>math.IsInf(f, 0)\<close>: either infinity.\<close>

fun IsInf :: "float64 \<Rightarrow> bool" where
  "IsInf (Inf neg) = True"
| "IsInf _ = False"

text \<open>
  \<^verbatim>\<open>strconv.AppendFloat(dst, f, fmt, -1, 64)\<close> for \<^verbatim>\<open>fmt\<close> one of \<^verbatim>\<open>'e'\<close> and \<^verbatim>\<open>'f'\<close>,
  transcribed from \<^verbatim>\<open>strconv/ftoa.go\<close>: \<^verbatim>\<open>fmtE\<close> writes \<^verbatim>\<open>d.ddde\<plusminus>xx\<close> with an exponent of
  two digits at least, \<^verbatim>\<open>fmtF\<close> writes \<^verbatim>\<open>ddd.ddd\<close>. With the precision \<^verbatim>\<open>-1\<close> the number
  of digits after the point is \<open>n - 1\<close> for \<^verbatim>\<open>'e'\<close> and \<open>n - dp\<close> for \<^verbatim>\<open>'f'\<close>, or 0 when that
  is negative.
\<close>

definition fmtE :: "bool \<Rightarrow> nat list \<Rightarrow> int \<Rightarrow> nat \<Rightarrow> bytes" where
  "fmtE neg ds dp prec =
     (let nd = length ds;
          m = min nd (prec + 1);
          i = (if 1 < m then m else 1);
          exp = (if nd = 0 then 0 else dp - 1);
          e = nat \<bar>exp\<bar>
      in (if neg then lit ''-'' else [])
         @ [if nd \<noteq> 0 then digit (ds ! 0) else 0x30]
         @ (if prec > 0
            then lit ''.'' @ map digit (take (m - 1) (drop 1 ds)) @ replicate (prec + 1 - i) 0x30
            else [])
         @ lit ''e''
         @ (if exp < 0 then lit ''-'' else lit ''+'')
         @ (if e < 10 then [0x30, digit e]
            else if e < 100 then [digit (e div 10), digit (e mod 10)]
            else [digit (e div 100), digit ((e div 10) mod 10), digit (e mod 10)]))"

definition fmtF :: "bool \<Rightarrow> nat list \<Rightarrow> int \<Rightarrow> nat \<Rightarrow> bytes" where
  "fmtF neg ds dp prec =
     (let nd = length ds
      in (if neg then lit ''-'' else [])
         @ (if dp > 0
            then map digit (take (nat dp) ds) @ replicate (nat dp - min nd (nat dp)) 0x30
            else lit ''0'')
         @ (if prec > 0
            then lit ''.'' @
              map (\<lambda>i. let j = dp + int i
                        in if 0 \<le> j \<and> j < int nd then digit (ds ! nat j) else 0x30) [0..<prec]
            else []))"

definition special :: "float64 \<Rightarrow> bytes" where
  "special f = (case f of NaN \<Rightarrow> lit ''NaN'' | Inf neg \<Rightarrow> (if neg then lit ''-Inf'' else lit ''+Inf'')
                | Finite neg ds dp \<Rightarrow> [])"

definition AppendFloat :: "bytes \<Rightarrow> float64 \<Rightarrow> byte \<Rightarrow> bytes" where
  "AppendFloat dst f fmt =
     (case f of
        Finite neg ds dp \<Rightarrow>
          if fmt = 0x65 then dst @ fmtE neg ds dp (length ds - 1)
          else dst @ fmtF neg ds dp (nat (int (length ds) - dp))
      | _ \<Rightarrow> dst @ special f)"

text \<open>
  \<^verbatim>\<open>func Float64(f float64, buf []byte) ([]byte, error)\<close>. \<^verbatim>\<open>math.Abs\<close> clears the sign.
  The clean-up of the exponent reads and writes the buffer by index, as the source does.
\<close>

fun Abs :: "float64 \<Rightarrow> float64" where
  "Abs (Finite neg ds dp) = Finite False ds dp"
| "Abs (Inf neg) = Inf False"
| "Abs NaN = NaN"

text \<open>\<^verbatim>\<open>abs != 0 && (abs < 1e-6 || abs >= 1e21)\<close> for a finite \<^verbatim>\<open>abs\<close>.\<close>

fun use_exponent :: "float64 \<Rightarrow> bool" where
  "use_exponent (Finite neg ds dp) =
     (magnitude ds dp \<noteq> 0 \<and> (magnitude ds dp < 1 / 10 ^ 6 \<or> magnitude ds dp \<ge> 10 ^ 21))"
| "use_exponent _ = False"

definition clean_exponent :: "nat \<Rightarrow> bytes \<Rightarrow> bytes" where
  "clean_exponent start buf =
     (let n = length buf - start
      in if n \<ge> 4 \<and> buf ! (start + n - 4) = 0x65 \<and> buf ! (start + n - 3) = 0x2D
            \<and> buf ! (start + n - 2) = 0x30
         then
           let buf1 = buf[start + n - 2 := buf ! (start + n - 1)]
           in take start buf1 @ slice buf1 start (start + n - 1)
         else buf)"

definition Float64 :: "float64 \<Rightarrow> bytes \<Rightarrow> result" where
  "Float64 f buf =
     (if IsInf f \<or> IsNaN f then
        (buf, Some (Errorf (lit ''unsupported value: '' @ special f)))
      else
        let format = (if use_exponent (Abs f) then 0x65 else 0x66);
            start = length buf;
            buf1 = AppendFloat buf f format
        in if format = 0x65 then (clean_exponent start buf1, None) else (buf1, None))"

section \<open>Polymorphic values, objects and arrays\<close>

text \<open>
  The dynamic types an \<^verbatim>\<open>interface{}\<close> handed to \<^verbatim>\<open>Value\<close> can hold. The first eleven
  constructors are the cases of the type switch, in its order. A value implementing
  \<^verbatim>\<open>JSONAppender\<close> is its method \<^verbatim>\<open>AppendJSON\<close>; a \<^verbatim>\<open>json.Marshaler\<close> is the result of its
  method \<^verbatim>\<open>MarshalJSON\<close>, which takes no argument. A \<^verbatim>\<open>map[string]interface{}\<close> is the
  list of its entries in the order the \<^verbatim>\<open>range\<close> loop visits them. The remaining
  constructors are dynamic types without a case of their own: the integer types of
  other widths, \<^verbatim>\<open>bool\<close>, and any other type, named by a tag. \<^verbatim>\<open>int\<close> and \<^verbatim>\<open>uint\<close> have 64
  bits, as on the 64-bit platforms.
\<close>

datatype "value" =
    VString bytes
  | VFloat64 float64
  | VInt64 int64
  | VInt "64 word"
  | VUint64 uint64
  | VUint "64 word"
  | VTime time_Time
  | VObject "(bytes \<times> value) list"
  | VArray "value list"
  | VJSONAppender "bytes \<Rightarrow> result"
  | VMarshaler result
  | VInt8 "8 word"
  | VInt16 "16 word"
  | VInt32 "32 word"
  | VUint8 "8 word"
  | VUint16 "16 word"
  | VUint32 "32 word"
  | VBool bool
  | VOther nat

text \<open>
  \<^verbatim>\<open>Value\<close>, \<^verbatim>\<open>Object\<close> and \<^verbatim>\<open>Array\<close> call each other. \<^verbatim>\<open>json.Marshal\<close> of package
  \<^verbatim>\<open>encoding/json\<close>, the fallback of \<^verbatim>\<open>Value\<close>, is the parameter \<open>Marshal\<close>. The loops of
  \<^verbatim>\<open>Object\<close> and \<^verbatim>\<open>Array\<close> carry the flag \<^verbatim>\<open>comma\<close> and the buffer. A result is \<open>None\<close>
  when a call of \<^verbatim>\<open>String\<close> inside does not return.
\<close>

fun Value :: "(value \<Rightarrow> result) \<Rightarrow> value \<Rightarrow> bytes \<Rightarrow> result option"
  and Object_loop :: "(value \<Rightarrow> result) \<Rightarrow> (bytes \<times> value) list \<Rightarrow> bool \<Rightarrow> bytes \<Rightarrow> result option"
  and Array_loop :: "(value \<Rightarrow> result) \<Rightarrow> value list \<Rightarrow> bool \<Rightarrow> bytes \<Rightarrow> result option"
where
  "Value Marshal (VString v) buf =
     (case String v buf of None \<Rightarrow> None | Some b \<Rightarrow> Some (b, None))"
| "Value Marshal (VFloat64 v) buf = Some (Float64 v buf)"
| "Value Marshal (VInt64 v) buf = Some (Int64 v buf, None)"
| "Value Marshal (VInt v) buf = Some (Int64 v buf, None)"
| "Value Marshal (VUint64 v) buf = Some (Uint64 v buf, None)"
| "Value Marshal (VUint v) buf = Some (Uint64 v buf, None)"
| "Value Marshal (VTime v) buf = Some (Time v buf)"
| "Value Marshal (VObject v) buf = Object_loop Marshal v False (buf @ lit ''{'')"
| "Value Marshal (VArray v) buf = Array_loop Marshal v False (buf @ lit ''['')"
| "Value Marshal (VJSONAppender v) buf = Some (v buf)"
| "Value Marshal (VMarshaler v) buf = Some (buf @ fst v, snd v)"
| "Value Marshal val buf = Some (buf @ fst (Marshal val), snd (Marshal val))"
| "Object_loop Marshal [] comma buf = Some (buf @ lit ''}'', None)"
| "Object_loop Marshal ((k, v) # mp) comma buf =
     (case FieldName k (if comma then buf @ lit '','' else buf) of
        None \<Rightarrow> None
      | Some buf1 \<Rightarrow>
          (case Value Marshal v buf1 of
             None \<Rightarrow> None
           | Some (buf2, err) \<Rightarrow>
               if err \<noteq> None then Some (buf2, err) else Object_loop Marshal mp True buf2))"
| "Array_loop Marshal [] comma buf = Some (buf @ lit '']'', None)"
| "Array_loop Marshal (v # rest) comma buf =
     (case Value Marshal v (if comma then buf @ lit '','' else buf) of
        None \<Rightarrow> None
      | Some (buf1, err) \<Rightarrow>
          if err \<noteq> None then Some (buf1, err) else Array_loop Marshal rest True buf1)"

text \<open>\<^verbatim>\<open>func Object(mp map[string]interface{}, buf []byte) ([]byte, error)\<close>\<close>

definition Object :: "(value \<Rightarrow> result) \<Rightarrow> (bytes \<times> value) list \<Rightarrow> bytes \<Rightarrow> result option" where
  "Object Marshal mp buf = Object_loop Marshal mp False (buf @ lit ''{'')"

text \<open>\<^verbatim>\<open>func Array(slice []interface{}, buf []byte) ([]byte, error)\<close>\<close>

definition Array :: "(value \<Rightarrow> result) \<Rightarrow> value list \<Rightarrow> bytes \<Rightarrow> result option" where
  "Array Marshal sl buf = Array_loop Marshal sl False (buf @ lit ''['')"

section \<open>The buffered writer\<close>

text \<open>
  \<^verbatim>\<open>BufWriter\<close> wraps a \<^verbatim>\<open>*bufio.Writer\<close> of the Go standard library, which itself
  wraps the sink given to \<^verbatim>\<open>NewBufWriter\<close> or \<^verbatim>\<open>Reset\<close>. The state of that writer,
  buffered bytes and sink together, is a value of a type \<open>'w\<close>, and the methods the
  source calls on it are the fields of a record of operations: each takes the state
  and returns the new state and the error. The source drops the byte counts
  (\<^verbatim>\<open>_, bw.Error = ...\<close>).
\<close>

record ('w, 's) bufio =
  bufio_NewWriter :: "'s \<Rightarrow> 'w"
  bufio_Reset :: "'w \<Rightarrow> 's \<Rightarrow> 'w"
  bufio_Write :: "'w \<Rightarrow> bytes \<Rightarrow> 'w \<times> error option"
  bufio_WriteString :: "'w \<Rightarrow> bytes \<Rightarrow> 'w \<times> error option"
  bufio_WriteByte :: "'w \<Rightarrow> byte \<Rightarrow> 'w \<times> error option"
  bufio_Flush :: "'w \<Rightarrow> 'w \<times> error option"

text \<open>
  The struct \<^verbatim>\<open>BufWriter\<close>. The field \<^verbatim>\<open>writer\<close> is a pointer: \<open>None\<close> is \<^verbatim>\<open>nil\<close>, as in
  the zero value \<^verbatim>\<open>BufWriter{}\<close>.
\<close>

record 'w BufWriter =
  Error :: "error option"
  writer :: "'w option"
  stringBuf :: bytes

text \<open>
  A method call returns, panics (a method called on the \<^verbatim>\<open>nil\<close> writer), or does not
  return (\<^verbatim>\<open>String\<close> inside it does not).
\<close>

datatype 'a outcome = Returns 'a | Panics | Diverges

text \<open>\<^verbatim>\<open>_, bw.Error = bw.writer.M(...)\<close> for a method \<open>M\<close> of the writer.\<close>

definition call_writer :: "('w \<Rightarrow> 'w \<times> error option) \<Rightarrow> 'w BufWriter \<Rightarrow> 'w BufWriter outcome" where
  "call_writer m bw =
     (case writer bw of
        None \<Rightarrow> Panics
      | Some w \<Rightarrow> (case m w of (w', err) \<Rightarrow> Returns (bw\<lparr>writer := Some w', Error := err\<rparr>)))"

text \<open>
  \<^verbatim>\<open>bw.stringBuf, bw.Error = F(x, bw.stringBuf[:0])\<close>, then the early return on an error,
  then \<^verbatim>\<open>_, bw.Error = bw.writer.Write(bw.stringBuf)\<close>: the tail shared by the methods
  \<^verbatim>\<open>Time\<close>, \<^verbatim>\<open>Float64\<close>, \<^verbatim>\<open>Value\<close>, \<^verbatim>\<open>Object\<close> and \<^verbatim>\<open>Array\<close>.
\<close>

definition store_and_write :: "('w, 's) bufio \<Rightarrow> 'w BufWriter \<Rightarrow> result \<Rightarrow> 'w BufWriter outcome" where
  "store_and_write io bw r =
     (let bw1 = bw\<lparr>stringBuf := fst r, Error := snd r\<rparr>
      in if Error bw1 \<noteq> None then Returns bw1
         else call_writer (\<lambda>w. bufio_Write io w (stringBuf bw1)) bw1)"

definition NewBufWriter :: "('w, 's) bufio \<Rightarrow> 's \<Rightarrow> 'w BufWriter" where
  "NewBufWriter io w = \<lparr>Error = None, writer = Some (bufio_NewWriter io w), stringBuf = []\<rparr>"

text \<open>\<^verbatim>\<open>Flush\<close> returns the error besides updating the writer.\<close>

definition BufWriter_Flush :: "('w, 's) bufio \<Rightarrow> 'w BufWriter \<Rightarrow> ('w BufWriter \<times> error option) outcome" where
  "BufWriter_Flush io bw =
     (if Error bw \<noteq> None then Returns (bw, Error bw)
      else
        (case call_writer (bufio_Flush io) bw of
           Returns bw1 \<Rightarrow> Returns (bw1, Error bw1)
         | Panics \<Rightarrow> Panics
         | Diverges \<Rightarrow> Diverges))"

definition BufWriter_Reset :: "('w, 's) bufio \<Rightarrow> 'w BufWriter \<Rightarrow> 's \<Rightarrow> 'w BufWriter" where
  "BufWriter_Reset io bw w =
     (let bw1 = bw\<lparr>Error := None\<rparr>
      in case writer bw1 of
           None \<Rightarrow> bw1\<lparr>writer := Some (bufio_NewWriter io w)\<rparr>
         | Some wr \<Rightarrow> bw1\<lparr>writer := Some (bufio_Reset io wr w)\<rparr>)"

definition BufWriter_Raw :: "('w, 's) bufio \<Rightarrow> 'w BufWriter \<Rightarrow> bytes \<Rightarrow> 'w BufWriter outcome" where
  "BufWriter_Raw io bw val =
     (if Error bw \<noteq> None then Returns bw
      else call_writer (\<lambda>w. bufio_Write io w val) bw)"

definition BufWriter_RawString :: "('w, 's) bufio \<Rightarrow> 'w BufWriter \<Rightarrow> bytes \<Rightarrow> 'w BufWriter outcome" where
  "BufWriter_RawString io bw val =
     (if Error bw \<noteq> None then Returns bw
      else call_writer (\<lambda>w. bufio_WriteString io w val) bw)"

definition BufWriter_RawByte :: "('w, 's) bufio \<Rightarrow> 'w BufWriter \<Rightarrow> byte \<Rightarrow> 'w BufWriter outcome" where
  "BufWriter_RawByte io bw val =
     (if Error bw \<noteq> None then Returns bw
      else call_writer (\<lambda>w. bufio_WriteByte io w val) bw)"

definition BufWriter_Int64 :: "('w, 's) bufio \<Rightarrow> 'w BufWriter \<Rightarrow> int64 \<Rightarrow> 'w BufWriter outcome" where
  "BufWriter_Int64 io bw val =
     (if Error bw \<noteq> None then Returns bw
      else call_writer (\<lambda>w. bufio_WriteString io w (FormatInt val)) bw)"

definition BufWriter_Uint64 :: "('w, 's) bufio \<Rightarrow> 'w BufWriter \<Rightarrow> uint64 \<Rightarrow> 'w BufWriter outcome" where
  "BufWriter_Uint64 io bw val =
     (if Error bw \<noteq> None then Returns bw
      else call_writer (\<lambda>w. bufio_WriteString io w (FormatUint val)) bw)"

definition BufWriter_FieldName :: "('w, 's) bufio \<Rightarrow> 'w BufWriter \<Rightarrow> bytes \<Rightarrow> 'w BufWriter outcome" where
  "BufWriter_FieldName io bw name =
     (if Error bw \<noteq> None then Returns bw
      else
        (case String name [] of
           None \<Rightarrow> Diverges
         | Some b \<Rightarrow>
             let bw1 = bw\<lparr>stringBuf := b @ lit '':''\<rparr>
             in call_writer (\<lambda>w. bufio_Write io w (stringBuf bw1)) bw1))"

definition BufWriter_Bool :: "('w, 's) bufio \<Rightarrow> 'w BufWriter \<Rightarrow> bool \<Rightarrow> 'w BufWriter outcome" where
  "BufWriter_Bool io bw val =
     (if Error bw \<noteq> None then Returns bw
      else if val then call_writer (\<lambda>w. bufio_WriteString io w (lit ''true'')) bw
      else call_writer (\<lambda>w. bufio_WriteString io w (lit ''false'')) bw)"

definition BufWriter_Time :: "('w, 's) bufio \<Rightarrow> 'w BufWriter \<Rightarrow> time_Time \<Rightarrow> 'w BufWriter outcome" where
  "BufWriter_Time io bw t =
     (if Error bw \<noteq> None then Returns bw
      else store_and_write io bw (Time t []))"

definition BufWriter_Float64 :: "('w, 's) bufio \<Rightarrow> 'w BufWriter \<Rightarrow> float64 \<Rightarrow> 'w BufWriter outcome" where
  "BufWriter_Float64 io bw f =
     (if Error bw \<noteq> None then Returns bw
      else store_and_write io bw (Float64 f []))"

definition BufWriter_Value ::
  "('w, 's) bufio \<Rightarrow> (value \<Rightarrow> result) \<Rightarrow> 'w BufWriter \<Rightarrow> value \<Rightarrow> 'w BufWriter outcome" where
  "BufWriter_Value io Marshal bw val =
     (if Error bw \<noteq> None then Returns bw
      else
        (case Value Marshal val [] of
           None \<Rightarrow> Diverges
         | Some r \<Rightarrow> store_and_write io bw r))"

definition BufWriter_Object ::
  "('w, 's) bufio \<Rightarrow> (value \<Rightarrow> result) \<Rightarrow> 'w BufWriter \<Rightarrow> (bytes \<times> value) list \<Rightarrow> 'w BufWriter outcome" where
  "BufWriter_Object io Marshal bw mp =
     (if Error bw \<noteq> None then Returns bw
      else
        (case Object Marshal mp [] of
           None \<Rightarrow> Diverges
         | Some r \<Rightarrow> store_and_write io bw r))"

definition BufWriter_Array ::
  "('w, 's) bufio \<Rightarrow> (value \<Rightarrow> result) \<Rightarrow> 'w BufWriter \<Rightarrow> value list \<Rightarrow> 'w BufWriter outcome" where
  "BufWriter_Array io Marshal bw sl =
     (if Error bw \<noteq> None then Returns bw
      else
        (case Array Marshal sl [] of
           None \<Rightarrow> Diverges
         | Some r \<Rightarrow> store_and_write io bw r))"

definition BufWriter_String :: "('w, 's) bufio \<Rightarrow> 'w BufWriter \<Rightarrow> bytes \<Rightarrow> 'w BufWriter outcome" where
  "BufWriter_String io bw val =
     (if Error bw \<noteq> None then Returns bw
      else
        (case String val [] of
           None \<Rightarrow> Diverges
         | Some b \<Rightarrow>
             let bw1 = bw\<lparr>stringBuf := b\<rparr>
             in call_writer (\<lambda>w. bufio_Write io w (stringBuf bw1)) bw1))"

section \<open>The contract of arrays, in the words of the specification\<close>

text \<open>
  The encodings of the entries, with a single comma between consecutive entries: none
  before the first, none after the last.
\<close>

fun join_commas :: "bytes list \<Rightarrow> bytes" where
  "join_commas [] = []"
| "join_commas [e] = e"
| "join_commas (e # es) = e @ lit '','' @ join_commas es"

section \<open>The notations of numbers, in the words of the specification\<close>

text \<open>
  The fixed-point notation of the finite value \<open>\<plusminus> 0.d\<^sub>1\<dots>d\<^sub>n \<times> 10\<^bsup>dp\<^esup>\<close>: the sign, the digits
  before the point (\<^verbatim>\<open>0\<close> when there are none, zeros after the last digit when the point
  lies beyond it) and, when digits remain, the point and the digits after it, with the
  zeros between the point and the first digit. The exponential notation: the sign, the
  first digit, the point and the other digits when there are any, \<^verbatim>\<open>e\<close>, the sign of the
  decimal exponent \<open>dp - 1\<close> and its magnitude in decimal digits without leading zeros
  (\<open>digits10\<close>), that is, not padded.
\<close>

definition sign_prefix :: "bool \<Rightarrow> bytes" where
  "sign_prefix neg = (if neg then lit ''-'' else [])"

definition fixed_notation :: "bool \<Rightarrow> nat list \<Rightarrow> int \<Rightarrow> bytes" where
  "fixed_notation neg ds dp =
     sign_prefix neg @
     (if ds = [] then lit ''0''
      else if dp \<le> 0 then lit ''0.'' @ replicate (nat (- dp)) 0x30 @ map digit ds
      else if int (length ds) \<le> dp then map digit ds @ replicate (nat dp - length ds) 0x30
      else map digit (take (nat dp) ds) @ lit ''.'' @ map digit (drop (nat dp) ds))"

definition exponent_notation :: "bool \<Rightarrow> nat list \<Rightarrow> int \<Rightarrow> bytes" where
  "exponent_notation neg ds dp =
     (case ds of
        [] \<Rightarrow> []
      | d # rest \<Rightarrow>
          sign_prefix neg @ [digit d]
          @ (if rest = [] then [] else lit ''.'' @ map digit rest)
          @ lit ''e'' @ (if dp - 1 < 0 then lit ''-'' else lit ''+'')
          @ digits10 (nat \<bar>dp - 1\<bar>))"

section \<open>Sample inputs\<close>

text \<open>A timestamp in the year 10000, the first year that \<^verbatim>\<open>Time\<close> rejects.\<close>

definition year10000 :: time_Time where
  "year10000 =
     \<lparr>Year = 10000, Month = 1, Day = 1, Hour = 0, Minute = 0, Second = 0,
      Nanosecond = 0, Offset = 0\<rparr>"

text \<open>
  A writer whose state is the list of the bytes written so far and which never fails,
  and a \<^verbatim>\<open>BufWriter\<close> over it with a latched error.
\<close>

definition list_io :: "(bytes, unit) bufio" where
  "list_io =
     \<lparr>bufio_NewWriter = (\<lambda>s. []),
      bufio_Reset = (\<lambda>w s. []),
      bufio_Write = (\<lambda>w p. (w @ p, None)),
      bufio_WriteString = (\<lambda>w p. (w @ p, None)),
      bufio_WriteByte = (\<lambda>w c. (w @ [c], None)),
      bufio_Flush = (\<lambda>w. (w, None))\<rparr>"

definition failed_writer :: "bytes BufWriter" where
  "failed_writer =
     \<lparr>Error = Some (External 0), writer = Some (lit ''sent''), stringBuf = lit ''tmp''\<rparr>"

section \<open>Properties of the string encoder\<close>

subsection \<open>One step of the scan loop\<close>

lemma String_loop_end:
  "\<not> i < length s \<Longrightarrow>
   String_loop s i start buf = Some ((if start < length s then buf @ drop start s else buf) @ [0x22])"
  by (subst String_loop.simps) simp

lemma String_loop_safe:
  "i < length s \<Longrightarrow> s ! i < RuneSelf \<Longrightarrow> htmlSafeSet (s ! i) \<Longrightarrow>
   String_loop s i start buf = String_loop s (i + 1) start buf"
  by (subst String_loop.simps) simp

lemma String_loop_escape:
  "i < length s \<Longrightarrow> s ! i < RuneSelf \<Longrightarrow> \<not> htmlSafeSet (s ! i) \<Longrightarrow>
   String_loop s i start buf =
     String_loop s (i + 1) (i + 1) (copy_run s start i buf @ escape_ascii (s ! i))"
  by (subst String_loop.simps) simp

lemma String_loop_invalid:
  "i < length s \<Longrightarrow> \<not> s ! i < RuneSelf \<Longrightarrow> DecodeRuneInString (drop i s) = (RuneError, 1) \<Longrightarrow>
   String_loop s i start buf =
     String_loop s (i + 1) (i + 1) (copy_run s start i buf @ [0x5C] @ lit ''uffd'')"
  by (subst String_loop.simps) simp

text \<open>
  At a line or paragraph separator the loop appends the escape and calls itself at the
  same position: \<open>i\<close> is not moved.
\<close>

lemma String_loop_separator:
  "separator_at s i \<Longrightarrow>
   String_loop s i start buf =
     String_loop s i i
       (copy_run s start i buf @ [0x5C] @ lit ''u202'' @
        [hex ! unat (fst (DecodeRuneInString (drop i s)) AND 0xF)])"
  by (subst String_loop.simps) (auto simp: separator_at_def split: prod.splits)

subsection \<open>The loop does not leave a separator\<close>

text \<open>
  Whenever the loop returns from a position, that position is not a separator: by
  fixpoint induction, since at a separator the result is that of the same position.
\<close>

lemma String_loop_Some_not_separator:
  assumes "String_loop s i start buf = Some out"
  shows "\<not> separator_at s i"
proof (rule String_loop.raw_induct
    [where P = "\<lambda>s i start buf out. \<not> separator_at s i", OF _ assms], goal_cases)
  case (1 loop s i start buf out)
  show ?case
  proof
    assume sep: "separator_at s i"
    then have "loop s i i
       (copy_run s start i buf @ [0x5C] @ lit ''u202'' @
        [hex ! unat (fst (DecodeRuneInString (drop i s)) AND 0xF)]) = Some out"
      using 1(2) by (auto simp: separator_at_def split: prod.splits)
    then have "\<not> separator_at s i" by (rule 1(1))
    with sep show False by contradiction
  qed
qed

lemma String_loop_separator_None:
  "separator_at s i \<Longrightarrow> String_loop s i start buf = None"
  using String_loop_Some_not_separator [of s i start buf]
  by (cases "String_loop s i start buf") auto

text \<open>From a position \<open>i\<close> the loop walks over ASCII bytes one at a time.\<close>

lemma String_loop_ascii_run:
  assumes "separator_at s j" and "i \<le> j" and "\<forall>k. i \<le> k \<and> k < j \<longrightarrow> s ! k < RuneSelf"
  shows "String_loop s i start buf = None"
  using assms(2,3)
proof (induction "j - i" arbitrary: i start buf)
  case 0
  then have "i = j" by simp
  with assms(1) show ?case by (simp add: String_loop_separator_None)
next
  case (Suc d)
  then have lt: "i < j" and ascii: "s ! i < RuneSelf" by auto
  from assms(1) lt have len: "i < length s" by (simp add: separator_at_def)
  have step: "\<And>st b. String_loop s (Suc i) st b = None"
    using Suc by (intro Suc(1)) auto
  show ?case
  proof (cases "htmlSafeSet (s ! i)")
    case True
    with len ascii show ?thesis by (simp add: String_loop_safe step)
  next
    case False
    with len ascii show ?thesis by (simp add: String_loop_escape step)
  qed
qed

lemma Decode_2028: "DecodeRuneInString ([0xE2, 0x80, 0xA8] @ post) = (0x2028, 3)"
  by (simp add: DecodeRuneInString_def first_def acceptRanges_def Let_def)

lemma Decode_2029: "DecodeRuneInString ([0xE2, 0x80, 0xA9] @ post) = (0x2029, 3)"
  by (simp add: DecodeRuneInString_def first_def acceptRanges_def Let_def)

lemma separator_at_2028: "separator_at (pre @ [0xE2, 0x80, 0xA8] @ post) (length pre)"
  using Decode_2028 [of post]
  by (simp add: separator_at_def RuneSelf_def RuneError_def nth_append)

lemma separator_at_2029: "separator_at (pre @ [0xE2, 0x80, 0xA9] @ post) (length pre)"
  using Decode_2029 [of post]
  by (simp add: separator_at_def RuneSelf_def RuneError_def nth_append)

lemma String_2029_None:
  assumes "\<forall>b \<in> set pre. b < 0x80"
  shows "String (pre @ [0xE2, 0x80, 0xA9] @ post) buf = None"
  unfolding String_def
proof (rule String_loop_ascii_run [OF separator_at_2029])
  show "0 \<le> length pre" by simp
  show "\<forall>k. 0 \<le> k \<and> k < length pre \<longrightarrow> (pre @ [0xE2, 0x80, 0xA9] @ post) ! k < RuneSelf"
    using assms by (auto simp: nth_append RuneSelf_def)
qed

subsection \<open>Invalid UTF-8\<close>

text \<open>
  Claim C1. The claim is that a byte that is not valid UTF-8 is replaced by the six
  characters \<^verbatim>\<open>\ufffd\<close>. The source appends \<^verbatim>\<open>'\\', 'u', 'f', 'f', 'd'\<close>, five characters:
  on the string \<^verbatim>\<open>"a\xffb"\<close> the encoder returns the buffer followed by \<^verbatim>\<open>"a\uffdb"\<close>,
  in which the escape has lost one \<^verbatim>\<open>f\<close> and swallows the next character.
\<close>

theorem String_invalid_byte_escape:
  "String (lit ''a'' @ [0xFF] @ lit ''b'') buf =
     Some (buf @ [0x22] @ lit ''a'' @ [0x5C] @ lit ''uffd'' @ lit ''b'' @ [0x22])"
proof -
  have d: "DecodeRuneInString [0xFF, 0x62] = (RuneError, 1)"
    by (simp add: DecodeRuneInString_def first_def Let_def)
  show ?thesis
    by (simp add: String_def lit_def String_loop_safe String_loop_invalid String_loop_end
        htmlSafeSet_def RuneSelf_def copy_run_def slice_def d)
qed

subsection \<open>Line and paragraph separators\<close>

text \<open>
  Claim C2. The claim is that a string containing U+2028 is returned with that code
  point written as \<^verbatim>\<open>\u2028\<close>. The branch of the source for U+2028 and U+2029 sets
  \<^verbatim>\<open>start = i\<close> and continues without \<^verbatim>\<open>i += size\<close>, so the loop stays at the
  separator: for every string that has U+2028 after ASCII bytes, whatever follows,
  and every buffer, \<^verbatim>\<open>String\<close> does not return.
\<close>

theorem String_line_separator_never_returns:
  assumes "\<forall>b \<in> set pre. b < 0x80"
  shows "String (pre @ [0xE2, 0x80, 0xA8] @ post) buf = None"
  unfolding String_def
proof (rule String_loop_ascii_run [OF separator_at_2028])
  show "0 \<le> length pre" by simp
  show "\<forall>k. 0 \<le> k \<and> k < length pre \<longrightarrow> (pre @ [0xE2, 0x80, 0xA8] @ post) ! k < RuneSelf"
    using assms by (auto simp: nth_append RuneSelf_def)
qed

theorem String_line_separator_never_returns_witness:
  "String (lit ''ab'' @ [0xE2, 0x80, 0xA8] @ lit ''c'') [] = None"
proof -
  have h: "\<forall>b \<in> set (lit ''ab'' :: bytes). b < 0x80" by (simp add: lit_def)
  show ?thesis by (rule String_line_separator_never_returns [OF h])
qed

text \<open>
  Claim C3. The claim is that every stateless append function terminates on every
  input, the scan loop of \<^verbatim>\<open>String\<close> also on strings containing U+2028 or U+2029. On
  the string that is the single code point U+2029 the loop does not terminate, and
  neither do the functions that call \<^verbatim>\<open>String\<close>: \<^verbatim>\<open>FieldName\<close>, \<^verbatim>\<open>Value\<close>, \<^verbatim>\<open>Object\<close> (on
  a key) and \<^verbatim>\<open>Array\<close> (on an element).
\<close>

theorem paragraph_separator_never_returns:
  "String [0xE2, 0x80, 0xA9] buf = None
   \<and> FieldName [0xE2, 0x80, 0xA9] buf = None
   \<and> Value Marshal (VString [0xE2, 0x80, 0xA9]) buf = None
   \<and> Object Marshal [([0xE2, 0x80, 0xA9], VInt64 0)] buf = None
   \<and> Array Marshal [VString [0xE2, 0x80, 0xA9]] buf = None"
proof -
  have s: "String [0xE2, 0x80, 0xA9] b = None" for b
    using String_2029_None [of "[]" "[]" b] by simp
  show ?thesis
    by (simp add: s FieldName_def Object_def Array_def)
qed

section \<open>Properties of the scalar encoders\<close>

text \<open>
  Claim C9. For every name and every buffer, \<^verbatim>\<open>FieldName\<close> returns what \<^verbatim>\<open>String\<close>
  returns with exactly one colon (0x3A) appended, and nothing else; where \<^verbatim>\<open>String\<close>
  does not return, \<^verbatim>\<open>FieldName\<close> does not either. \<^verbatim>\<open>FieldName\<close> has no error result.
\<close>

theorem FieldName_is_String_colon:
  "FieldName name buf = map_option (\<lambda>b. b @ [0x3A]) (String name buf)"
  by (cases "String name buf") (simp_all add: FieldName_def lit_def)

text \<open>
  Claim C10. For every \<^verbatim>\<open>int64\<close> value that is not negative and every buffer,
  \<^verbatim>\<open>Int64(v, buf)\<close> and \<^verbatim>\<open>Uint64(uint64(v), buf)\<close> are the same buffer.
\<close>

theorem Int64_Uint64_agree:
  assumes "0 \<le> sint v"
  shows "Int64 v buf = Uint64 (uint64_of_int64 v) buf"
  using assms
  by (simp add: Int64_def Uint64_def FormatInt_def FormatUint_def uint64_of_int64_def
      word_sless_alt)

theorem Int64_Uint64_agree_witness:
  "Int64 42 (lit ''n='') = Uint64 (uint64_of_int64 42) (lit ''n='')
   \<and> Int64 42 (lit ''n='') = lit ''n=42''"
proof -
  have h: "0 \<le> sint (42 :: int64)" by simp
  show ?thesis
    using Int64_Uint64_agree [OF h, of "lit ''n=''"]
    by (simp add: Uint64_def FormatUint_def uint64_of_int64_def digits10.simps digit_def lit_def)
qed

text \<open>
  Claim C4, as the claim states it, fails: the claim is that on every failure of \<^verbatim>\<open>Time\<close>
  and of \<^verbatim>\<open>Float64\<close> the returned buffer equals the input buffer. \<^verbatim>\<open>Time\<close> returns
  \<^verbatim>\<open>nil\<close> on failure: for a timestamp in the year 10000 and the buffer \<^verbatim>\<open>"x"\<close> it fails
  and the buffer it returns is not \<^verbatim>\<open>"x"\<close>.
\<close>

theorem Time_failure_returns_nil:
  "snd (Time year10000 (lit ''x'')) \<noteq> None \<and> fst (Time year10000 (lit ''x'')) \<noteq> lit ''x''"
  by (simp add: Time_def year10000_def lit_def)

text \<open>
  Claim C4, amended. For every buffer, \<^verbatim>\<open>Time\<close> returns an error exactly when the year
  is negative or at least 10000, and then the buffer it returns is \<^verbatim>\<open>nil\<close> (empty);
  \<^verbatim>\<open>Float64\<close> returns an error exactly when the value is NaN or an infinity, and then
  the buffer it returns is the input buffer.
\<close>

theorem scalar_failures:
  "(snd (Time t buf) \<noteq> None \<longleftrightarrow> Year t < 0 \<or> Year t \<ge> 10000)
   \<and> (snd (Time t buf) \<noteq> None \<longrightarrow> fst (Time t buf) = [])
   \<and> (snd (Float64 f buf) \<noteq> None \<longleftrightarrow> IsNaN f \<or> IsInf f)
   \<and> (snd (Float64 f buf) \<noteq> None \<longrightarrow> fst (Float64 f buf) = buf)"
  by (cases f) (auto simp: Time_def Float64_def Let_def)

theorem scalar_failures_witness:
  "snd (Time year10000 (lit ''x'')) \<noteq> None \<and> fst (Time year10000 (lit ''x'')) = []
   \<and> snd (Float64 NaN (lit ''x'')) \<noteq> None \<and> fst (Float64 NaN (lit ''x'')) = lit ''x''"
  using scalar_failures [where t = year10000 and buf = "lit ''x''" and f = NaN]
  by (simp add: year10000_def)

section \<open>Properties of the polymorphic encoder and of arrays\<close>

text \<open>
  Claim C7, as the claim states it, fails: the claim is that an integer of any width
  is encoded by the integer encoder and not by the fallback. The type switch of
  \<^verbatim>\<open>Value\<close> has cases for \<^verbatim>\<open>int64\<close>, \<^verbatim>\<open>int\<close>, \<^verbatim>\<open>uint64\<close> and \<^verbatim>\<open>uint\<close> only. With a
  \<^verbatim>\<open>json.Marshal\<close> that answered \<^verbatim>\<open>fallback\<close>, the \<^verbatim>\<open>int32\<close> value 5 would be encoded as
  \<^verbatim>\<open>fallback\<close>, not as the \<^verbatim>\<open>5\<close> of \<^verbatim>\<open>Int64\<close>: its bytes are those of the fallback.
\<close>

theorem Value_int32_uses_fallback:
  "Value (\<lambda>v. (lit ''fallback'', None)) (VInt32 5) [] = Some (lit ''fallback'', None)
   \<and> Int64 5 [] = lit ''5''
   \<and> Value (\<lambda>v. (lit ''fallback'', None)) (VInt32 5) [] \<noteq> Some (Int64 5 [], None)"
  by (simp add: Int64_def FormatInt_def digits10.simps digit_def lit_def word_sless_alt)

text \<open>
  Claim C7, amended. A value of type \<^verbatim>\<open>int64\<close> or \<^verbatim>\<open>int\<close> is encoded by \<^verbatim>\<open>Int64\<close> and a
  value of type \<^verbatim>\<open>uint64\<close> or \<^verbatim>\<open>uint\<close> by \<^verbatim>\<open>Uint64\<close>, whatever the fallback is; a value
  of type \<^verbatim>\<open>int8\<close>, \<^verbatim>\<open>int16\<close>, \<^verbatim>\<open>int32\<close>, \<^verbatim>\<open>uint8\<close>, \<^verbatim>\<open>uint16\<close> or \<^verbatim>\<open>uint32\<close> is encoded by
  the fallback \<^verbatim>\<open>json.Marshal\<close>: its bytes are appended and its error is returned.
\<close>

theorem Value_integer_dispatch:
  "Value Marshal (VInt64 a) buf = Some (Int64 a buf, None)
   \<and> Value Marshal (VInt b) buf = Some (Int64 b buf, None)
   \<and> Value Marshal (VUint64 c) buf = Some (Uint64 c buf, None)
   \<and> Value Marshal (VUint d) buf = Some (Uint64 d buf, None)
   \<and> Value Marshal (VInt8 e) buf = Some (buf @ fst (Marshal (VInt8 e)), snd (Marshal (VInt8 e)))
   \<and> Value Marshal (VInt16 f) buf = Some (buf @ fst (Marshal (VInt16 f)), snd (Marshal (VInt16 f)))
   \<and> Value Marshal (VInt32 g) buf = Some (buf @ fst (Marshal (VInt32 g)), snd (Marshal (VInt32 g)))
   \<and> Value Marshal (VUint8 h) buf = Some (buf @ fst (Marshal (VUint8 h)), snd (Marshal (VUint8 h)))
   \<and> Value Marshal (VUint16 i) buf = Some (buf @ fst (Marshal (VUint16 i)), snd (Marshal (VUint16 i)))
   \<and> Value Marshal (VUint32 j) buf = Some (buf @ fst (Marshal (VUint32 j)), snd (Marshal (VUint32 j)))"
  by simp

subsection \<open>Arrays\<close>

lemma join_commas_Cons:
  "join_commas (e # es) = e @ (if es = [] then [] else lit '','') @ join_commas es"
  by (cases es) simp_all

text \<open>
  The loop of \<^verbatim>\<open>Array\<close>, started with any flag and any buffer, over entries that each
  append an encoding of their own.
\<close>

lemma Array_loop_all_encoded:
  assumes "list_all2 (\<lambda>v e. \<forall>b. Value Marshal v b = Some (b @ e, None)) vs es"
  shows "Array_loop Marshal vs comma buf =
           Some (buf @ (if comma \<and> vs \<noteq> [] then lit '','' else []) @ join_commas es @ lit '']'',
                 None)"
  using assms
proof (induction vs es arbitrary: comma buf rule: list_all2_induct)
  case Nil
  show ?case by simp
next
  case (Cons v vs e es)
  from Cons(2) have len: "vs = [] \<longleftrightarrow> es = []" by auto
  show ?case
    using Cons(1) len by (simp add: Cons.IH join_commas_Cons)
qed

lemma Array_loop_first_failure:
  assumes "list_all2 (\<lambda>v e. \<forall>b. Value Marshal v b = Some (b @ e, None)) vs es"
    and "Value Marshal v
           (buf @ (if comma \<and> vs \<noteq> [] then lit '','' else []) @ join_commas es
              @ (if comma \<or> vs \<noteq> [] then lit '','' else [])) = Some (buf', Some err)"
  shows "Array_loop Marshal (vs @ v # rest) comma buf = Some (buf', Some err)"
  using assms
proof (induction vs es arbitrary: comma buf rule: list_all2_induct)
  case Nil
  then show ?case by (cases comma) simp_all
next
  case (Cons w vs e es)
  from Cons(2) have len: "vs = [] \<longleftrightarrow> es = []" by auto
  have "Array_loop Marshal (vs @ v # rest) True ((if comma then buf @ lit '','' else buf) @ e)
          = Some (buf', Some err)"
    using Cons.prems len by (intro Cons.IH) (auto simp: join_commas_Cons)
  then show ?case using Cons(1) by simp
qed

text \<open>
  Claim C6. Let every entry of \<open>vs\<close> encode successfully, the entry \<open>vs ! k\<close> appending
  the bytes \<open>es ! k\<close> to whatever buffer it is given. Then \<^verbatim>\<open>Array\<close> returns the buffer
  followed by \<^verbatim>\<open>[\<close>, the encodings in the order of \<open>vs\<close> with a single comma between
  consecutive ones, and \<^verbatim>\<open>]\<close>, and no error. If such entries \<open>vs\<close> are followed by an
  entry \<open>v\<close> whose encoding fails, \<^verbatim>\<open>Array\<close> returns just what the encoder returned for
  \<open>v\<close>, the buffer and the error: no \<^verbatim>\<open>]\<close> is appended, and the entries \<open>rest\<close> after \<open>v\<close>,
  whatever they are, have no part in the result.
\<close>

theorem Array_contract:
  "(list_all2 (\<lambda>v e. \<forall>b. Value Marshal v b = Some (b @ e, None)) vs es \<longrightarrow>
      Array Marshal vs buf = Some (buf @ lit ''['' @ join_commas es @ lit '']'', None))
   \<and> (list_all2 (\<lambda>v e. \<forall>b. Value Marshal v b = Some (b @ e, None)) vs es
       \<and> Value Marshal v (buf @ lit ''['' @ join_commas es @ (if vs = [] then [] else lit '',''))
            = Some (buf', Some err) \<longrightarrow>
      Array Marshal (vs @ v # rest) buf = Some (buf', Some err))"
proof (intro conjI impI)
  assume "list_all2 (\<lambda>v e. \<forall>b. Value Marshal v b = Some (b @ e, None)) vs es"
  then show "Array Marshal vs buf = Some (buf @ lit ''['' @ join_commas es @ lit '']'', None)"
    by (simp add: Array_def Array_loop_all_encoded)
next
  assume a: "list_all2 (\<lambda>v e. \<forall>b. Value Marshal v b = Some (b @ e, None)) vs es
       \<and> Value Marshal v (buf @ lit ''['' @ join_commas es @ (if vs = [] then [] else lit '',''))
            = Some (buf', Some err)"
  show "Array Marshal (vs @ v # rest) buf = Some (buf', Some err)"
    unfolding Array_def
    by (rule Array_loop_first_failure [where es = es]) (use a in auto)
qed

lemma Int64_1: "Int64 1 b = b @ lit ''1''"
  by (simp add: Int64_def FormatInt_def digits10.simps digit_def lit_def word_sless_alt)

lemma Int64_2: "Int64 2 b = b @ lit ''2''"
  by (simp add: Int64_def FormatInt_def digits10.simps digit_def lit_def word_sless_alt)

theorem Array_contract_witness:
  "Array (\<lambda>v. ([], None)) [VInt64 1, VInt64 2] (lit ''x'') = Some (lit ''x[1,2]'', None)
   \<and> Array (\<lambda>v. ([], None)) ([VInt64 1, VInt64 2] @ VFloat64 NaN # [VInt64 2]) (lit ''x'')
       = Some (lit ''x[1,2,'', Some (Errorf (lit ''unsupported value: NaN'')))"
proof -
  have enc: "list_all2 (\<lambda>v e. \<forall>b. Value (\<lambda>v. ([], None)) v b = Some (b @ e, None))
               [VInt64 1, VInt64 2] [lit ''1'', lit ''2'']"
    by (simp add: Int64_1 Int64_2)
  have fail: "Value (\<lambda>v. ([], None)) (VFloat64 NaN)
      (lit ''x'' @ lit ''['' @ join_commas [lit ''1'', lit ''2'']
         @ (if [VInt64 1, VInt64 2] = [] then [] else lit '',''))
      = Some (lit ''x[1,2,'', Some (Errorf (lit ''unsupported value: NaN'')))"
    by (simp add: Float64_def special_def lit_def)
  show ?thesis
    using Array_contract [of "\<lambda>v. ([], None)" "[VInt64 1, VInt64 2]" "[lit ''1'', lit ''2'']" "lit ''x''"
        "VFloat64 NaN" "lit ''x[1,2,''" "Errorf (lit ''unsupported value: NaN'')" "[VInt64 2]"]
      enc fail
    by (simp add: lit_def)
qed

section \<open>Properties of the buffered writer\<close>

text \<open>
  Claim C8. Once the field \<^verbatim>\<open>Error\<close> of a \<^verbatim>\<open>BufWriter\<close> holds an error, each of the
  thirteen write methods returns with the \<^verbatim>\<open>BufWriter\<close> unchanged: the error, the
  scratch buffer and the state of the underlying writer, sink included, are what they
  were. \<^verbatim>\<open>Flush\<close> returns the latched error and changes nothing either. \<^verbatim>\<open>Reset\<close>
  clears the error and leaves a writer in place.
\<close>

theorem BufWriter_sticky_error:
  assumes "Error bw = Some e"
  shows "BufWriter_Raw io bw val = Returns bw
   \<and> BufWriter_RawString io bw val = Returns bw
   \<and> BufWriter_RawByte io bw c = Returns bw
   \<and> BufWriter_Int64 io bw i = Returns bw
   \<and> BufWriter_Uint64 io bw u = Returns bw
   \<and> BufWriter_Bool io bw b = Returns bw
   \<and> BufWriter_Time io bw t = Returns bw
   \<and> BufWriter_Float64 io bw f = Returns bw
   \<and> BufWriter_String io bw val = Returns bw
   \<and> BufWriter_FieldName io bw val = Returns bw
   \<and> BufWriter_Value io Marshal bw v = Returns bw
   \<and> BufWriter_Object io Marshal bw mp = Returns bw
   \<and> BufWriter_Array io Marshal bw sl = Returns bw
   \<and> BufWriter_Flush io bw = Returns (bw, Some e)
   \<and> Error (BufWriter_Reset io bw w) = None
   \<and> writer (BufWriter_Reset io bw w) \<noteq> None"
  using assms
  by (simp add: BufWriter_Raw_def BufWriter_RawString_def BufWriter_RawByte_def
      BufWriter_Int64_def BufWriter_Uint64_def BufWriter_Bool_def BufWriter_Time_def
      BufWriter_Float64_def BufWriter_String_def BufWriter_FieldName_def BufWriter_Value_def
      BufWriter_Object_def BufWriter_Array_def BufWriter_Flush_def BufWriter_Reset_def
      Let_def split: option.split)

theorem BufWriter_sticky_error_witness:
  "BufWriter_Raw list_io failed_writer (lit ''a'') = Returns failed_writer
   \<and> BufWriter_String list_io failed_writer (lit ''a'') = Returns failed_writer
   \<and> BufWriter_Flush list_io failed_writer = Returns (failed_writer, Some (External 0))
   \<and> BufWriter_Reset list_io failed_writer ()
       = \<lparr>Error = None, writer = Some [], stringBuf = lit ''tmp''\<rparr>
   \<and> BufWriter_Raw list_io (BufWriter_Reset list_io failed_writer ()) (lit ''a'')
       = Returns \<lparr>Error = None, writer = Some (lit ''a''), stringBuf = lit ''tmp''\<rparr>"
proof -
  have h: "Error failed_writer = Some (External 0)" by (simp add: failed_writer_def)
  have r: "BufWriter_Reset list_io failed_writer ()
             = \<lparr>Error = None, writer = Some [], stringBuf = lit ''tmp''\<rparr>"
    by (simp add: BufWriter_Reset_def failed_writer_def list_io_def Let_def)
  have w: "BufWriter_Raw list_io \<lparr>Error = None, writer = Some [], stringBuf = lit ''tmp''\<rparr>
             (lit ''a'')
           = Returns \<lparr>Error = None, writer = Some (lit ''a''), stringBuf = lit ''tmp''\<rparr>"
    by (simp add: BufWriter_Raw_def call_writer_def list_io_def)
  show ?thesis
    using BufWriter_sticky_error [OF h, of list_io "lit ''a''"]
    by (simp add: r w)
qed

section \<open>Properties of the float encoder\<close>

subsection \<open>The magnitude and the decimal exponent\<close>

text \<open>
  The digits \<open>d\<^sub>1 \<dots> d\<^sub>n\<close> with \<open>d\<^sub>1 \<noteq> 0\<close> stand for a number between \<open>10\<^bsup>n-1\<^esup>\<close> and \<open>10\<^bsup>n\<^esup>\<close>, so
  the magnitude lies between \<open>10\<^bsup>dp-1\<^esup>\<close> and \<open>10\<^bsup>dp\<^esup>\<close>.
\<close>

lemma digits_val_upper: "list_all (\<lambda>d. d < 10) ds \<Longrightarrow> digits_val ds < 10 ^ length ds"
proof (induction ds)
  case Nil
  show ?case by simp
next
  case (Cons d ds)
  then have d: "d \<le> 9" and r: "digits_val ds < 10 ^ length ds" by auto
  have "d * 10 ^ length ds \<le> 9 * 10 ^ length ds" using d by simp
  with r have "d * 10 ^ length ds + digits_val ds < 9 * 10 ^ length ds + 10 ^ length ds"
    by linarith
  then show ?case by simp
qed

lemma digits_val_lower: "ds \<noteq> [] \<Longrightarrow> hd ds \<noteq> 0 \<Longrightarrow> 10 ^ (length ds - 1) \<le> digits_val ds"
proof (cases ds)
  case Nil
  then show "ds \<noteq> [] \<Longrightarrow> ?thesis" by simp
next
  case (Cons d rest)
  assume "hd ds \<noteq> 0"
  with Cons have "1 \<le> d" by simp
  then have "1 * 10 ^ length rest \<le> d * 10 ^ length rest" by (rule mult_le_mono1)
  then have "10 ^ length rest \<le> d * 10 ^ length rest + digits_val rest" by linarith
  with Cons show ?thesis by simp
qed

lemma magnitude_bounds:
  assumes "ds \<noteq> []" "hd ds \<noteq> 0" "list_all (\<lambda>d. d < 10) ds"
  shows "10 powi (dp - 1) \<le> magnitude ds dp" and "magnitude ds dp < 10 powi dp"
proof -
  let ?n = "length ds"
  let ?s = "(10::rat) powi (dp - int ?n)"
  have pos: "0 < ?s" by simp
  have n: "0 < ?n" using assms(1) by simp
  have e: "int (?n - 1) + (dp - int ?n) = dp - 1" using n by linarith
  have "(10::rat) powi (dp - 1) = 10 powi (int (?n - 1)) * ?s"
    by (subst power_int_add [symmetric]) (simp_all only: e, simp)
  also have "\<dots> = of_nat (10 ^ (?n - 1)) * ?s" by simp
  also have "\<dots> \<le> of_nat (digits_val ds) * ?s"
    using digits_val_lower [OF assms(1,2)] pos
    by (intro mult_right_mono) (auto simp del: of_nat_power)
  finally show "10 powi (dp - 1) \<le> magnitude ds dp" by (simp add: magnitude_def)
  have "magnitude ds dp = of_nat (digits_val ds) * ?s" by (simp add: magnitude_def)
  also have "\<dots> < of_nat (10 ^ ?n) * ?s"
    using digits_val_upper [OF assms(3)] pos
    by (intro mult_strict_right_mono) (auto simp del: of_nat_power)
  also have "\<dots> = 10 powi (int ?n) * ?s" by simp
  also have "\<dots> = 10 powi dp"
    by (subst power_int_add [symmetric]) auto
  finally show "magnitude ds dp < 10 powi dp" .
qed

text \<open>
  Where the source chooses the format \<^verbatim>\<open>'e'\<close>, the decimal exponent \<open>dp - 1\<close> is at most
  \<open>-7\<close> or at least \<open>21\<close>.
\<close>

lemma small_magnitude_exponent:
  assumes "ds \<noteq> []" "hd ds \<noteq> 0" "list_all (\<lambda>d. d < 10) ds" "magnitude ds dp < 1 / 10 ^ 6"
  shows "dp - 1 \<le> - 7"
proof (rule ccontr)
  assume "\<not> dp - 1 \<le> - 7"
  then have "- 6 \<le> dp - 1" by simp
  then have "(10::rat) powi (- 6) \<le> 10 powi (dp - 1)" by (intro power_int_increasing) auto
  also have "\<dots> \<le> magnitude ds dp" by (rule magnitude_bounds(1) [OF assms(1-3)])
  finally show False using assms(4) by (simp add: power_int_minus_divide)
qed

lemma large_magnitude_exponent:
  assumes "ds \<noteq> []" "hd ds \<noteq> 0" "list_all (\<lambda>d. d < 10) ds" "10 ^ 21 \<le> magnitude ds dp"
  shows "21 \<le> dp - 1"
proof (rule ccontr)
  assume "\<not> 21 \<le> dp - 1"
  then have "dp \<le> 21" by simp
  then have "(10::rat) powi dp \<le> 10 powi 21" by (intro power_int_increasing) auto
  with magnitude_bounds(2) [OF assms(1-3), of dp] assms(4) show False by simp
qed

lemma magnitude_zero_iff:
  assumes "wf_float64 (Finite neg ds dp)"
  shows "magnitude ds dp = 0 \<longleftrightarrow> ds = []"
proof (cases "ds = []")
  case True
  then show ?thesis by (simp add: magnitude_def)
next
  case False
  with assms have "10 powi (dp - 1) \<le> magnitude ds dp"
    by (intro magnitude_bounds(1)) (auto split: if_splits)
  moreover have "(0::rat) < 10 powi (dp - 1)" by (rule zero_less_power_int) simp
  ultimately have "0 < magnitude ds dp" by linarith
  then show ?thesis using False by simp
qed

subsection \<open>What \<^verbatim>\<open>strconv\<close> writes and what the clean-up makes of it\<close>

text \<open>
  The clean-up looks at the last four bytes that were appended: it drops the third of
  them when they are \<^verbatim>\<open>e\<close>, \<^verbatim>\<open>-\<close>, \<^verbatim>\<open>0\<close> and one more byte, and changes nothing otherwise.
\<close>

lemma clean_exponent_tail:
  "clean_exponent (length buf) (buf @ body @ [a, b, c, d]) =
     (if a = 0x65 \<and> b = 0x2D \<and> c = 0x30 then buf @ body @ [a, b, d] else buf @ body @ [a, b, c, d])"
  by (simp add: clean_exponent_def slice_def nth_append Let_def list_update_append)

lemma digits10_1: "n < 10 \<Longrightarrow> digits10 n = [digit n]"
  by (simp add: digits10.simps)

lemma digits10_2: "10 \<le> n \<Longrightarrow> n < 100 \<Longrightarrow> digits10 n = [digit (n div 10), digit (n mod 10)]"
  by (subst digits10.simps) (simp add: digits10_1)

lemma digits10_3:
  "100 \<le> n \<Longrightarrow> n < 1000 \<Longrightarrow>
   digits10 n = [digit (n div 100), digit ((n div 10) mod 10), digit (n mod 10)]"
  by (subst digits10.simps) (simp add: digits10_2 div_mult2_eq [symmetric])

lemma digit_eq_zero:
  assumes "d < 10"
  shows "digit d = 0x30 \<longleftrightarrow> d = 0"
proof
  have "unat (digit d) = (48 + d) mod 2 ^ LENGTH(8)"
    unfolding digit_def by (rule unat_of_nat)
  also have "\<dots> = 48 + d" using assms by simp
  finally have u: "unat (digit d) = 48 + d" .
  assume "digit d = 0x30"
  then have "unat (digit d) = 48" by simp
  with u show "d = 0" by simp
next
  assume "d = 0"
  then show "digit d = 0x30" by (simp add: digit_def)
qed

lemma fmtE_shortest:
  assumes "ds \<noteq> []"
  shows "fmtE neg ds dp (length ds - 1) =
     (sign_prefix neg @ [digit (hd ds)]
        @ (if tl ds = [] then [] else lit ''.'' @ map digit (tl ds)))
     @ [0x65] @ [if dp - 1 < 0 then 0x2D else 0x2B]
     @ (if nat \<bar>dp - 1\<bar> < 10 then [0x30, digit (nat \<bar>dp - 1\<bar>)]
        else if nat \<bar>dp - 1\<bar> < 100
          then [digit (nat \<bar>dp - 1\<bar> div 10), digit (nat \<bar>dp - 1\<bar> mod 10)]
        else [digit (nat \<bar>dp - 1\<bar> div 100), digit ((nat \<bar>dp - 1\<bar> div 10) mod 10),
              digit (nat \<bar>dp - 1\<bar> mod 10)])"
proof (cases ds)
  case Nil
  with assms show ?thesis by simp
next
  case (Cons d rest)
  then show ?thesis
    by (cases rest) (simp_all add: fmtE_def sign_prefix_def Let_def lit_def)
qed

text \<open>The digits after the point, as the loop of \<^verbatim>\<open>fmtF\<close> picks them by index.\<close>

lemma fraction_leading_zeros:
  assumes "dp \<le> 0"
  shows "map (\<lambda>i. let j = dp + int i
                  in if 0 \<le> j \<and> j < int (length ds) then digit (ds ! nat j) else 0x30)
           [0..<nat (int (length ds) - dp)]
         = replicate (nat (- dp)) 0x30 @ map digit ds"
proof (rule nth_equalityI)
  show "length (map (\<lambda>i. let j = dp + int i
                  in if 0 \<le> j \<and> j < int (length ds) then digit (ds ! nat j) else 0x30)
           [0..<nat (int (length ds) - dp)])
        = length (replicate (nat (- dp)) (0x30 :: byte) @ map digit ds)"
    using assms by simp
next
  fix i
  assume "i < length (map (\<lambda>i. let j = dp + int i
                  in if 0 \<le> j \<and> j < int (length ds) then digit (ds ! nat j) else 0x30)
           [0..<nat (int (length ds) - dp)])"
  then have i: "int i < int (length ds) - dp" by simp
  have idx: "nat (dp + int i) = i - nat (- dp)" using assms by linarith
  show "map (\<lambda>i. let j = dp + int i
                  in if 0 \<le> j \<and> j < int (length ds) then digit (ds ! nat j) else 0x30)
           [0..<nat (int (length ds) - dp)] ! i
        = (replicate (nat (- dp)) 0x30 @ map digit ds) ! i"
  proof (cases "i < nat (- dp)")
    case True
    then have "dp + int i < 0" by linarith
    with True i show ?thesis by (simp add: nth_append Let_def)
  next
    case False
    then have "0 \<le> dp + int i" by linarith
    moreover have "i - nat (- dp) < length ds" using i assms False by linarith
    ultimately show ?thesis using False i idx by (simp add: nth_append Let_def)
  qed
qed

lemma fraction_after_point:
  assumes "0 < dp" "dp < int (length ds)"
  shows "map (\<lambda>i. let j = dp + int i
                  in if 0 \<le> j \<and> j < int (length ds) then digit (ds ! nat j) else 0x30)
           [0..<nat (int (length ds) - dp)]
         = map digit (drop (nat dp) ds)"
proof (rule nth_equalityI)
  show "length (map (\<lambda>i. let j = dp + int i
                  in if 0 \<le> j \<and> j < int (length ds) then digit (ds ! nat j) else 0x30)
           [0..<nat (int (length ds) - dp)])
        = length (map digit (drop (nat dp) ds))"
    using assms by simp
next
  fix i
  assume "i < length (map (\<lambda>i. let j = dp + int i
                  in if 0 \<le> j \<and> j < int (length ds) then digit (ds ! nat j) else 0x30)
           [0..<nat (int (length ds) - dp)])"
  then have i: "int i < int (length ds) - dp" by simp
  have idx: "nat (dp + int i) = nat dp + i" using assms by linarith
  have "i < length ds - nat dp" using i assms by linarith
  then show "map (\<lambda>i. let j = dp + int i
                  in if 0 \<le> j \<and> j < int (length ds) then digit (ds ! nat j) else 0x30)
           [0..<nat (int (length ds) - dp)] ! i
        = map digit (drop (nat dp) ds) ! i"
    using i assms idx by (simp add: Let_def)
qed

lemma fmtF_shortest:
  assumes "ds = [] \<longrightarrow> dp = 0"
  shows "fmtF neg ds dp (nat (int (length ds) - dp)) = fixed_notation neg ds dp"
proof -
  consider "ds = []" | "ds \<noteq> []" "dp \<le> 0" | "ds \<noteq> []" "int (length ds) \<le> dp"
    | "ds \<noteq> []" "0 < dp" "dp < int (length ds)"
    by linarith
  then show ?thesis
  proof cases
    case 1
    with assms show ?thesis by (simp add: fmtF_def fixed_notation_def sign_prefix_def)
  next
    case 2
    then have "0 < length ds" by simp
    with 2 have "0 < nat (int (length ds) - dp)" by linarith
    with 2 show ?thesis
      unfolding fmtF_def fixed_notation_def sign_prefix_def Let_def
      by (simp add: fraction_leading_zeros [unfolded Let_def] lit_def)
  next
    case 3
    then have "0 < dp" by (cases ds) auto
    with 3 show ?thesis
      by (simp add: fmtF_def fixed_notation_def sign_prefix_def Let_def)
  next
    case 4
    then have "0 < nat (int (length ds) - dp)" by linarith
    with 4 show ?thesis
      unfolding fmtF_def fixed_notation_def sign_prefix_def Let_def
      unfolding fraction_after_point [OF 4(2,3), unfolded Let_def]
      by simp
  qed
qed


lemma clean_exponent_notation:
  assumes "ds \<noteq> []" and "dp - 1 \<le> - 7 \<or> 21 \<le> dp - 1" and "- 324 \<le> dp - 1" "dp - 1 \<le> 308"
  shows "clean_exponent (length buf) (buf @ fmtE neg ds dp (length ds - 1))
           = buf @ exponent_notation neg ds dp"
proof -
  define P where "P = sign_prefix neg @ [digit (hd ds)]
     @ (if tl ds = [] then [] else lit ''.'' @ map digit (tl ds))"
  define e where "e = nat \<bar>dp - 1\<bar>"
  have e_bounds: "7 \<le> e" "e < 1000" using assms(2-4) by (auto simp: e_def)
  have out: "fmtE neg ds dp (length ds - 1) =
      P @ [0x65] @ [if dp - 1 < 0 then 0x2D else 0x2B]
      @ (if e < 10 then [0x30, digit e]
         else if e < 100 then [digit (e div 10), digit (e mod 10)]
         else [digit (e div 100), digit ((e div 10) mod 10), digit (e mod 10)])"
    unfolding P_def e_def by (rule fmtE_shortest [OF assms(1)])
  have spec: "exponent_notation neg ds dp =
      P @ [0x65] @ [if dp - 1 < 0 then 0x2D else 0x2B] @ digits10 e"
    using assms(1) by (cases ds) (simp_all add: exponent_notation_def P_def e_def lit_def)
  consider (one) "e < 10" | (two) "10 \<le> e" "e < 100" | (three) "100 \<le> e"
    by linarith
  then show ?thesis
  proof cases
    case one
    with e_bounds assms(2) have neg_exp: "dp - 1 < 0" by (auto simp: e_def)
    have "clean_exponent (length buf) (buf @ P @ [0x65, 0x2D, 0x30, digit e])
            = buf @ P @ [0x65, 0x2D, digit e]"
      by (simp add: clean_exponent_tail)
    with one neg_exp show ?thesis unfolding out spec by (simp add: digits10_1)
  next
    case two
    then have "e div 10 < 10" "e div 10 \<noteq> 0" by auto
    then have nz: "digit (e div 10) \<noteq> 0x30" by (simp add: digit_eq_zero)
    have "clean_exponent (length buf)
            (buf @ P @ [0x65, if dp - 1 < 0 then 0x2D else 0x2B, digit (e div 10), digit (e mod 10)])
          = buf @ P @ [0x65, if dp - 1 < 0 then 0x2D else 0x2B, digit (e div 10), digit (e mod 10)]"
      using nz by (simp add: clean_exponent_tail)
    with two show ?thesis unfolding out spec by (simp add: digits10_2)
  next
    case three
    have "clean_exponent (length buf)
            (buf @ (P @ [0x65]) @ [if dp - 1 < 0 then 0x2D else 0x2B, digit (e div 100),
               digit ((e div 10) mod 10), digit (e mod 10)])
          = buf @ (P @ [0x65]) @ [if dp - 1 < 0 then 0x2D else 0x2B, digit (e div 100),
               digit ((e div 10) mod 10), digit (e mod 10)]"
      by (simp only: clean_exponent_tail) simp
    with three e_bounds show ?thesis unfolding out spec by (simp add: digits10_3)
  qed
qed

lemma digits10_not_Nil: "digits10 n \<noteq> []"
  by (subst digits10.simps) simp

text \<open>The digits of a positive number do not start with a zero.\<close>

lemma digits10_no_leading_zero: "0 < n \<Longrightarrow> hd (digits10 n) \<noteq> 0x30"
proof (induction n rule: digits10.induct)
  case (1 n)
  show ?case
  proof (cases "n < 10")
    case True
    with 1(2) show ?thesis by (simp add: digits10_1 digit_eq_zero)
  next
    case False
    then have "0 < n div 10" by simp
    with False 1(1) have "hd (digits10 (n div 10)) \<noteq> 0x30" by simp
    with False show ?thesis
      by (subst digits10.simps) (simp add: digits10_not_Nil)
  qed
qed

text \<open>
  Claim C5. For every finite \<^verbatim>\<open>float64\<close> and every buffer, \<^verbatim>\<open>Float64\<close> appends the value
  in fixed-point notation when it is zero or its magnitude lies in \<open>[10\<^bsup>-6\<^esup>, 10\<^bsup>21\<^esup>)\<close>, and
  in exponential notation otherwise; both notations carry exactly the digits of the
  shortest decimal that reads back as the value, and the exponent of the exponential
  notation is written without a padding zero (\<open>digits10_no_leading_zero\<close>): the
  clean-up removes the zero of \<^verbatim>\<open>e-07\<close> to \<^verbatim>\<open>e-09\<close>, and no other exponent that occurs
  has one, since below \<open>10\<^bsup>-6\<^esup>\<close> the exponent is at most \<open>-7\<close> and from \<open>10\<^bsup>21\<^esup>\<close> on it is at
  least \<open>21\<close>.
\<close>

theorem Float64_notation:
  assumes "wf_float64 (Finite neg ds dp)"
  shows "Float64 (Finite neg ds dp) buf =
     (if magnitude ds dp = 0 \<or> (1 / 10 ^ 6 \<le> magnitude ds dp \<and> magnitude ds dp < 10 ^ 21)
      then (buf @ fixed_notation neg ds dp, None)
      else (buf @ exponent_notation neg ds dp, None))"
proof (cases "magnitude ds dp = 0 \<or> (1 / 10 ^ 6 \<le> magnitude ds dp \<and> magnitude ds dp < 10 ^ 21)")
  case True
  then have nu: "use_exponent (Abs (Finite neg ds dp)) = False" by auto
  have z: "ds = [] \<longrightarrow> dp = 0" using assms by simp
  have "Float64 (Finite neg ds dp) buf = (buf @ fixed_notation neg ds dp, None)"
    by (simp add: Float64_def AppendFloat_def fmtF_shortest [OF z] Let_def nu
        del: use_exponent.simps Abs.simps)
  then show ?thesis unfolding if_P [OF True] .
next
  case False
  then have use: "use_exponent (Abs (Finite neg ds dp)) = True" by auto
  from False have "magnitude ds dp \<noteq> 0" by simp
  then have ne: "ds \<noteq> []" using magnitude_zero_iff [OF assms] by simp
  with assms have wf: "list_all (\<lambda>d. d < 10) ds" "hd ds \<noteq> 0" "- 323 \<le> dp" "dp \<le> 309"
    by simp_all
  from False have "magnitude ds dp < 1 / 10 ^ 6 \<or> 10 ^ 21 \<le> magnitude ds dp" by auto
  then have range: "dp - 1 \<le> - 7 \<or> 21 \<le> dp - 1"
    using small_magnitude_exponent [OF ne wf(2,1)] large_magnitude_exponent [OF ne wf(2,1)]
    by blast
  have "clean_exponent (length buf) (buf @ fmtE neg ds dp (length ds - 1))
          = buf @ exponent_notation neg ds dp"
    using wf(3,4) by (intro clean_exponent_notation [OF ne range]) auto
  then have "Float64 (Finite neg ds dp) buf = (buf @ exponent_notation neg ds dp, None)"
    by (simp add: Float64_def AppendFloat_def Let_def use del: use_exponent.simps Abs.simps)
  then show ?thesis unfolding if_not_P [OF False] .
qed

theorem Float64_notation_witness:
  "Float64 (Finite False [5] (- 6)) (lit ''x='') = (lit ''x=5e-7'', None)
   \<and> Float64 (Finite False [1] 22) (lit ''x='') = (lit ''x=1e+21'', None)
   \<and> Float64 (Finite True [1, 2, 5] 1) (lit ''x='') = (lit ''x=-1.25'', None)"
proof -
  have a: "wf_float64 (Finite False [5] (- 6))" by simp
  have b: "wf_float64 (Finite False [1] 22)" by simp
  have c: "wf_float64 (Finite True [1, 2, 5] 1)" by simp
  have 1: "Float64 (Finite False [5] (- 6)) (lit ''x='') = (lit ''x=5e-7'', None)"
    using Float64_notation [OF a, of "lit ''x=''"]
    by (simp add: magnitude_def power_int_minus_divide exponent_notation_def sign_prefix_def
        digits10.simps digit_def lit_def)
  have 2: "Float64 (Finite False [1] 22) (lit ''x='') = (lit ''x=1e+21'', None)"
    using Float64_notation [OF b, of "lit ''x=''"]
    by (simp add: magnitude_def exponent_notation_def sign_prefix_def
        digits10.simps digit_def lit_def)
  have 3: "Float64 (Finite True [1, 2, 5] 1) (lit ''x='') = (lit ''x=-1.25'', None)"
    using Float64_notation [OF c, of "lit ''x=''"]
    by (simp add: magnitude_def power_int_minus_divide fixed_notation_def sign_prefix_def
        digit_def lit_def)
  from 1 2 3 show ?thesis by simp
qed

end
